theory Spec2Isabelle
  imports Main "HOL-Library.Word" "HOL-Library.Sublist"
begin

unbundle bit_operations_syntax

section \<open>The DLN-2 USB-ADC driver (dln2-adc.c)\<close>

text \<open>
  The driver talks to the adapter only through \<^verbatim>\<open>dln2_transfer\<close> and
  \<^verbatim>\<open>dln2_transfer_tx\<close> of the DLN-2 core. The core is not part of the driver, so
  every function below takes the transfer primitive as a parameter \<open>tr\<close> and every
  theorem holds for all of them. C \<^verbatim>\<open>int\<close> values are modelled as \<open>int\<close>: the
  driver only compares them with zero and copies them, and its single counter stays
  below 256. Bytes are \<open>8 word\<close>, and each narrowing store of the source
  (\<^verbatim>\<open>u8 port = dln2->port\<close>, \<^verbatim>\<open>.chan = channel\<close>) is a conversion written out.
  The mutex taken around the read in \<^verbatim>\<open>dln2_adc_read_raw\<close> has no sequential
  effect and is left out.
\<close>

subsection \<open>Constants\<close>

type_synonym u8 = "8 word"
type_synonym u16 = "16 word"
type_synonym u32 = "32 word"

text \<open>
  Modelled from the spec: the kernel headers behind \<^verbatim>\<open>DLN2_CMD\<close>, \<^verbatim>\<open>EPROTO\<close>,
  \<^verbatim>\<open>EINVAL\<close>, \<^verbatim>\<open>IIO_VAL_INT\<close>, \<^verbatim>\<open>IIO_CHAN_INFO_RAW\<close>, \<^verbatim>\<open>IIO_VOLTAGE\<close>,
  \<^verbatim>\<open>BIT\<close> and \<^verbatim>\<open>le16_to_cpu\<close> are missing from the sources. The spec names the
  commands, the protocol-framing error and the little-endian 16-bit field without
  giving numbers; the values below are those of the Linux headers the driver includes
  (\<^verbatim>\<open>DLN2_CMD(cmd, id) = cmd | id << 8\<close>, \<^verbatim>\<open>EPROTO = 71\<close>, \<^verbatim>\<open>EINVAL = 22\<close>,
  \<^verbatim>\<open>IIO_VAL_INT = 1\<close>, \<^verbatim>\<open>IIO_CHAN_INFO_RAW = 0\<close>, \<^verbatim>\<open>IIO_VOLTAGE = 0\<close>).
\<close>

definition DLN2_CMD :: "u16 \<Rightarrow> u16 \<Rightarrow> u16" where
  "DLN2_CMD cmd mid = cmd OR push_bit 8 mid"

definition EPROTO :: int where "EPROTO = 71"
definition EINVAL :: int where "EINVAL = 22"
definition IIO_VAL_INT :: int where "IIO_VAL_INT = 1"
definition IIO_CHAN_INFO_RAW :: int where "IIO_CHAN_INFO_RAW = 0"
definition IIO_VOLTAGE :: int where "IIO_VOLTAGE = 0"

definition BIT :: "int \<Rightarrow> int" where
  "BIT n = push_bit (nat n) 1"

definition le16_to_cpu :: "u8 list \<Rightarrow> u16" where
  "le16_to_cpu v = ucast (v ! 0) OR push_bit 8 (ucast (v ! 1))"

definition DLN2_ADC_ID :: u16 where "DLN2_ADC_ID = 0x06"

definition DLN2_ADC_GET_CHANNEL_COUNT :: u16 where
  "DLN2_ADC_GET_CHANNEL_COUNT = DLN2_CMD 0x01 DLN2_ADC_ID"
definition DLN2_ADC_ENABLE :: u16 where
  "DLN2_ADC_ENABLE = DLN2_CMD 0x02 DLN2_ADC_ID"
definition DLN2_ADC_DISABLE :: u16 where
  "DLN2_ADC_DISABLE = DLN2_CMD 0x03 DLN2_ADC_ID"
definition DLN2_ADC_CHANNEL_ENABLE :: u16 where
  "DLN2_ADC_CHANNEL_ENABLE = DLN2_CMD 0x05 DLN2_ADC_ID"
definition DLN2_ADC_CHANNEL_DISABLE :: u16 where
  "DLN2_ADC_CHANNEL_DISABLE = DLN2_CMD 0x06 DLN2_ADC_ID"
definition DLN2_ADC_SET_RESOLUTION :: u16 where
  "DLN2_ADC_SET_RESOLUTION = DLN2_CMD 0x08 DLN2_ADC_ID"
definition DLN2_ADC_CHANNEL_GET_VAL :: u16 where
  "DLN2_ADC_CHANNEL_GET_VAL = DLN2_CMD 0x0A DLN2_ADC_ID"

definition DLN2_ADC_MAX_CHANNELS :: int where "DLN2_ADC_MAX_CHANNELS = 8"
definition DLN2_ADC_DATA_BITS :: int where "DLN2_ADC_DATA_BITS = 10"

subsection \<open>Data\<close>

text \<open>
  \<^verbatim>\<open>struct dln2_adc\<close>. The \<^verbatim>\<open>pdev\<close> handle only designates the adapter that
  \<^verbatim>\<open>dln2_transfer\<close> talks to; here that is the bus threaded through the calls.
\<close>

record dln2_adc =
  port :: int
  chans_enabled :: u8

record dln2_adc_port_chan =
  pc_port :: u8
  pc_chan :: u8

text \<open>The bytes of a \<^verbatim>\<open>struct dln2_adc_port_chan\<close>, in field order.\<close>

definition port_chan_bytes :: "dln2_adc_port_chan \<Rightarrow> u8 list" where
  "port_chan_bytes pc = [pc_port pc, pc_chan pc]"

record iio_chan_spec =
  type :: int
  indexed :: int
  info_mask_separate :: int
  channel :: int

subsection \<open>The transfer primitive and the bus\<close>

text \<open>
  One call of \<^verbatim>\<open>dln2_transfer(pdev, cmd, ibuf, ilen, obuf, &olen)\<close>: the command, the
  \<open>ilen\<close> request bytes, and the capacity of the output buffer (\<open>None\<close> for the
  \<^verbatim>\<open>NULL\<close> buffer of \<^verbatim>\<open>dln2_transfer_tx\<close>). The adapter, in state \<open>'t\<close>, answers
  with the return value and the bytes it stored through \<open>obuf\<close>; \<open>olen\<close> afterwards
  is their number.
\<close>

type_synonym 't transport =
  "u16 \<Rightarrow> u8 list \<Rightarrow> nat option \<Rightarrow> 't \<Rightarrow> (int \<times> u8 list) \<times> 't"

text \<open>Every transfer is recorded, with its answer, in the order it was issued.\<close>

record xfer =
  x_cmd :: u16
  x_ibuf :: "u8 list"
  x_ocap :: "nat option"
  x_ret :: int
  x_obuf :: "u8 list"

record 't bus =
  dev :: 't
  log :: "xfer list"

definition dln2_transfer ::
  "'t transport \<Rightarrow> u16 \<Rightarrow> u8 list \<Rightarrow> nat option \<Rightarrow> 't bus \<Rightarrow> (int \<times> u8 list) \<times> 't bus" where
  "dln2_transfer tr cmd ibuf ocap b =
     (case tr cmd ibuf ocap (dev b) of
        ((ret, obuf), t) \<Rightarrow>
          ((ret, obuf),
           \<lparr>dev = t,
            log = log b @ [\<lparr>x_cmd = cmd, x_ibuf = ibuf, x_ocap = ocap,
                           x_ret = ret, x_obuf = obuf\<rparr>]\<rparr>))"

definition dln2_transfer_tx ::
  "'t transport \<Rightarrow> u16 \<Rightarrow> u8 list \<Rightarrow> 't bus \<Rightarrow> int \<times> 't bus" where
  "dln2_transfer_tx tr cmd ibuf b =
     (case dln2_transfer tr cmd ibuf None b of ((ret, obuf), b') \<Rightarrow> (ret, b'))"

subsection \<open>The driver\<close>

definition dln2_adc_get_chan_count :: "'t transport \<Rightarrow> dln2_adc \<Rightarrow> 't bus \<Rightarrow> int \<times> 't bus" where
  "dln2_adc_get_chan_count tr dln2 b =
     (let p = (word_of_int (port dln2) :: u8) in
      case dln2_transfer tr DLN2_ADC_GET_CHANNEL_COUNT [p] (Some 1) b of
        ((ret, obuf), b') \<Rightarrow>
          if ret < 0 then (ret, b')
          else if length obuf < 1 then (- EPROTO, b')
          else (uint (obuf ! 0), b'))"

definition dln2_adc_set_port_resolution :: "'t transport \<Rightarrow> dln2_adc \<Rightarrow> 't bus \<Rightarrow> int \<times> 't bus" where
  "dln2_adc_set_port_resolution tr dln2 b =
     (let port_chan = \<lparr>pc_port = word_of_int (port dln2),
                       pc_chan = word_of_int DLN2_ADC_DATA_BITS\<rparr> in
      case dln2_transfer_tx tr DLN2_ADC_SET_RESOLUTION (port_chan_bytes port_chan) b of
        (ret, b') \<Rightarrow> if ret < 0 then (ret, b') else (0, b'))"

definition dln2_adc_set_chan_enabled ::
  "'t transport \<Rightarrow> dln2_adc \<Rightarrow> int \<Rightarrow> bool \<Rightarrow> 't bus \<Rightarrow> int \<times> 't bus" where
  "dln2_adc_set_chan_enabled tr dln2 chan enable b =
     (let port_chan = \<lparr>pc_port = word_of_int (port dln2), pc_chan = word_of_int chan\<rparr> in
      case dln2_transfer_tx tr
             (if enable then DLN2_ADC_CHANNEL_ENABLE else DLN2_ADC_CHANNEL_DISABLE)
             (port_chan_bytes port_chan) b of
        (ret, b') \<Rightarrow> if ret < 0 then (ret, b') else (0, b'))"

text \<open>
  The \<^verbatim>\<open>for\<close> loop of \<^verbatim>\<open>dln2_adc_set_port_enabled\<close>, from counter \<open>i\<close>:
  \<open>Some ret\<close> is its early \<^verbatim>\<open>return ret\<close>, \<open>None\<close> is falling out of the loop.
\<close>

function chan_enable_loop ::
  "'t transport \<Rightarrow> dln2_adc \<Rightarrow> int \<Rightarrow> int \<Rightarrow> 't bus \<Rightarrow> int option \<times> 't bus" where
  "chan_enable_loop tr dln2 i chan_count b =
     (if i < chan_count then
        (case dln2_adc_set_chan_enabled tr dln2 i True b of
           (ret, b') \<Rightarrow>
             if ret < 0 then (Some ret, b')
             else chan_enable_loop tr dln2 (i + 1) chan_count b')
      else (None, b))"
  by pat_completeness auto
termination
  by (relation "measure (\<lambda>(tr, dln2, i, chan_count, b). nat (chan_count - i))") auto

declare chan_enable_loop.simps [simp del]

definition dln2_adc_set_port_enabled ::
  "'t transport \<Rightarrow> dln2_adc \<Rightarrow> bool \<Rightarrow> 't bus \<Rightarrow> int \<times> 't bus" where
  "dln2_adc_set_port_enabled tr dln2 enable b =
     (case dln2_adc_get_chan_count tr dln2 b of
        (ret, b1) \<Rightarrow>
          if ret < 0 then (ret, b1)
          else
            let chan_count = ret in
            case dln2_adc_set_port_resolution tr dln2 b1 of
              (ret, b2) \<Rightarrow>
                if ret < 0 then (ret, b2)
                else
                  case chan_enable_loop tr dln2 0 chan_count b2 of
                    (Some ret, b3) \<Rightarrow> (ret, b3)
                  | (None, b3) \<Rightarrow>
                      let p = (word_of_int (port dln2) :: u8) in
                      case dln2_transfer tr
                             (if enable then DLN2_ADC_ENABLE else DLN2_ADC_DISABLE)
                             [p] (Some 2) b3 of
                        ((ret, conflict), b4) \<Rightarrow>
                          if ret < 0 then (ret, b4)
                          else if length conflict < 2 then (- EPROTO, b4)
                          else (0, b4))"

text \<open>
  \<^verbatim>\<open>dln2_adc_read\<close> splits at its one store to the context: first the lazy enable,
  then the read of the channel value.
\<close>

definition dln2_adc_get_val ::
  "'t transport \<Rightarrow> dln2_adc \<Rightarrow> u32 \<Rightarrow> 't bus \<Rightarrow> int \<times> dln2_adc \<times> 't bus" where
  "dln2_adc_get_val tr dln2 chnl b =
     (let port_chan = \<lparr>pc_port = word_of_int (port dln2), pc_chan = ucast chnl\<rparr> in
      case dln2_transfer tr DLN2_ADC_CHANNEL_GET_VAL (port_chan_bytes port_chan) (Some 2) b of
        ((ret, val), b') \<Rightarrow>
          if ret < 0 then (ret, dln2, b')
          else if length val < 2 then (- EPROTO, dln2, b')
          else (uint (le16_to_cpu val), dln2, b'))"

definition dln2_adc_read ::
  "'t transport \<Rightarrow> dln2_adc \<Rightarrow> u32 \<Rightarrow> 't bus \<Rightarrow> int \<times> dln2_adc \<times> 't bus" where
  "dln2_adc_read tr dln2 chnl b =
     (if chans_enabled dln2 = 0 then
        (case dln2_adc_set_port_enabled tr dln2 True b of
           (ret, b') \<Rightarrow>
             if ret < 0 then (ret, dln2, b')
             else dln2_adc_get_val tr (dln2\<lparr>chans_enabled := 1\<rparr>) chnl b')
      else dln2_adc_get_val tr dln2 chnl b)"

text \<open>
  \<^verbatim>\<open>dln2_adc_read_raw\<close>: the two out-parameters \<^verbatim>\<open>*val\<close> and \<^verbatim>\<open>*val2\<close> are passed
  in with their current contents and handed back; \<^verbatim>\<open>break\<close> leaves the switch for
  the final \<^verbatim>\<open>return -EINVAL\<close>.
\<close>

record 't raw_result =
  r_ret :: int
  r_val :: int
  r_val2 :: int
  r_dln2 :: dln2_adc
  r_bus :: "'t bus"

definition dln2_adc_read_raw ::
  "'t transport \<Rightarrow> dln2_adc \<Rightarrow> iio_chan_spec \<Rightarrow> int \<Rightarrow> int \<Rightarrow> int \<Rightarrow> 't bus \<Rightarrow> 't raw_result" where
  "dln2_adc_read_raw tr dln2 chan val val2 msk b =
     (if msk = IIO_CHAN_INFO_RAW then
        (case dln2_adc_read tr dln2 (word_of_int (channel chan)) b of
           (ret, dln2', b') \<Rightarrow>
             if ret < 0 then
               \<lparr>r_ret = - EINVAL, r_val = val, r_val2 = val2, r_dln2 = dln2', r_bus = b'\<rparr>
             else
               \<lparr>r_ret = IIO_VAL_INT, r_val = ret, r_val2 = val2, r_dln2 = dln2', r_bus = b'\<rparr>)
      else \<lparr>r_ret = - EINVAL, r_val = val, r_val2 = val2, r_dln2 = dln2, r_bus = b\<rparr>)"

definition DLN2_ADC_CHAN :: "int \<Rightarrow> iio_chan_spec" where
  "DLN2_ADC_CHAN idx =
     \<lparr>type = IIO_VOLTAGE, indexed = 1,
      info_mask_separate = BIT IIO_CHAN_INFO_RAW, channel = idx\<rparr>"

definition dln2_adc_iio_channels :: "iio_chan_spec list" where
  "dln2_adc_iio_channels =
     [DLN2_ADC_CHAN 0, DLN2_ADC_CHAN 1, DLN2_ADC_CHAN 2, DLN2_ADC_CHAN 3,
      DLN2_ADC_CHAN 4, DLN2_ADC_CHAN 5, DLN2_ADC_CHAN 6, DLN2_ADC_CHAN 7]"

text \<open>
  \<^verbatim>\<open>dln2_adc_remove\<close> unregisters the device from the host framework and returns 0.
  It calls neither transfer function and does not touch the context.
\<close>

definition dln2_adc_remove :: "dln2_adc \<Rightarrow> 't bus \<Rightarrow> int \<times> dln2_adc \<times> 't bus" where
  "dln2_adc_remove dln2 b = (0, dln2, b)"

subsection \<open>The protocol in the words of the specification\<close>

text \<open>
  A request is a command with its payload. The seven requests of the specification's
  codec table, the least response length the table declares for each command, and the
  enable sequence of the state machine for a port that answered \<open>n\<close> channels.
\<close>

type_synonym request = "u16 \<times> u8 list"

definition x_req :: "xfer \<Rightarrow> request" where
  "x_req x = (x_cmd x, x_ibuf x)"

definition GetChannelCount :: "u8 \<Rightarrow> request" where
  "GetChannelCount p = (DLN2_ADC_GET_CHANNEL_COUNT, [p])"

definition SetResolution :: "u8 \<Rightarrow> u8 \<Rightarrow> request" where
  "SetResolution p bits = (DLN2_ADC_SET_RESOLUTION, [p, bits])"

definition ChannelEnable :: "u8 \<Rightarrow> u8 \<Rightarrow> request" where
  "ChannelEnable p c = (DLN2_ADC_CHANNEL_ENABLE, [p, c])"

definition ChannelDisable :: "u8 \<Rightarrow> u8 \<Rightarrow> request" where
  "ChannelDisable p c = (DLN2_ADC_CHANNEL_DISABLE, [p, c])"

definition PortEnable :: "u8 \<Rightarrow> request" where
  "PortEnable p = (DLN2_ADC_ENABLE, [p])"

definition PortDisable :: "u8 \<Rightarrow> request" where
  "PortDisable p = (DLN2_ADC_DISABLE, [p])"

definition ChannelGetValue :: "u8 \<Rightarrow> u8 \<Rightarrow> request" where
  "ChannelGetValue p c = (DLN2_ADC_CHANNEL_GET_VAL, [p, c])"

definition min_response :: "u16 \<Rightarrow> nat" where
  "min_response cmd =
     (if cmd = DLN2_ADC_GET_CHANNEL_COUNT then 1
      else if cmd = DLN2_ADC_ENABLE \<or> cmd = DLN2_ADC_DISABLE then 2
      else if cmd = DLN2_ADC_CHANNEL_GET_VAL then 2
      else 0)"

definition enable_sequence :: "u8 \<Rightarrow> bool \<Rightarrow> int \<Rightarrow> request list" where
  "enable_sequence p enable n =
     [GetChannelCount p, SetResolution p 10] @
     map (\<lambda>k. ChannelEnable p (word_of_int k)) [0 .. n - 1] @
     [if enable then PortEnable p else PortDisable p]"

text \<open>The port byte every request of a context carries.\<close>

definition port8 :: "dln2_adc \<Rightarrow> u8" where
  "port8 dln2 = word_of_int (port dln2)"

text \<open>
  What went wrong in a recorded transfer, if anything: the transport's own negative
  return value, or a response shorter than the buffer the caller offered, which the
  driver reports as \<^verbatim>\<open>-EPROTO\<close>.
\<close>

definition xfer_error :: "xfer \<Rightarrow> int option" where
  "xfer_error x =
     (if x_ret x < 0 then Some (x_ret x)
      else case x_ocap x of
             None \<Rightarrow> None
           | Some k \<Rightarrow> if length (x_obuf x) < k then Some (- EPROTO) else None)"

definition steps_ok :: "xfer list \<Rightarrow> bool" where
  "steps_ok xs = list_all (\<lambda>x. xfer_error x = None) xs"

text \<open>The offered buffer of a transfer is the one the codec table declares.\<close>

definition declared :: "xfer \<Rightarrow> bool" where
  "declared x =
     (x_ocap x = (if min_response (x_cmd x) = 0 then None else Some (min_response (x_cmd x))))"

text \<open>The channel count a GetChannelCount transfer answered.\<close>

definition answered_count :: "xfer \<Rightarrow> int" where
  "answered_count x = (case x_obuf x of [] \<Rightarrow> 0 | c # _ \<Rightarrow> uint c)"

subsection \<open>Runs of the driver\<close>

text \<open>Reads of the channels \<open>cs\<close>, one after the other, on the same context.\<close>

fun dln2_adc_reads ::
  "'t transport \<Rightarrow> dln2_adc \<Rightarrow> u32 list \<Rightarrow> 't bus \<Rightarrow> dln2_adc \<times> 't bus" where
  "dln2_adc_reads tr dln2 [] b = (dln2, b)"
| "dln2_adc_reads tr dln2 (c # cs) b =
     (case dln2_adc_read tr dln2 c b of (ret, dln2', b') \<Rightarrow> dln2_adc_reads tr dln2' cs b')"

text \<open>
  What the host framework can ask of a probed device: a \<^verbatim>\<open>read_raw\<close> on some channel
  specification with some mask, or the removal of the device.
\<close>

datatype event = ReadRaw iio_chan_spec int | Remove

fun controller_step ::
  "'t transport \<Rightarrow> event \<Rightarrow> dln2_adc \<times> 't bus \<Rightarrow> dln2_adc \<times> 't bus" where
  "controller_step tr (ReadRaw chan msk) (dln2, b) =
     (let r = dln2_adc_read_raw tr dln2 chan 0 0 msk b in (r_dln2 r, r_bus r))"
| "controller_step tr Remove (dln2, b) =
     (case dln2_adc_remove dln2 b of (ret, dln2', b') \<Rightarrow> (dln2', b'))"

fun controller_run ::
  "'t transport \<Rightarrow> event list \<Rightarrow> dln2_adc \<times> 't bus \<Rightarrow> dln2_adc \<times> 't bus" where
  "controller_run tr [] s = s"
| "controller_run tr (e # es) s = controller_run tr es (controller_step tr e s)"

text \<open>
  A scripted adapter for concrete runs: its state is the list of answers still to give,
  handed out one per transfer; once the script is exhausted every transfer fails with
  \<^verbatim>\<open>-ENODEV\<close> (19).
\<close>

definition scripted :: "(int \<times> u8 list) list transport" where
  "scripted cmd ibuf ocap s = (case s of [] \<Rightarrow> ((- 19, []), []) | a # rest \<Rightarrow> (a, rest))"

definition fresh_bus :: "'t \<Rightarrow> 't bus" where
  "fresh_bus t = \<lparr>dev = t, log = []\<rparr>"

text \<open>
  Concrete material for runs against the scripted adapter: a context before and after
  its first read, the answers of a two-channel port to a first read, and the answers of
  a six-channel port whose fifth ChannelEnable fails.
\<close>

definition ctx_uninit :: dln2_adc where
  "ctx_uninit = \<lparr>port = 2, chans_enabled = 0\<rparr>"

definition ctx_enabled :: dln2_adc where
  "ctx_enabled = \<lparr>port = 2, chans_enabled = 1\<rparr>"

definition script_first_read :: "(int \<times> u8 list) list" where
  "script_first_read = [(0, [2]), (0, []), (0, []), (0, []), (0, [0, 0]), (0, [0xFF, 0x03])]"


text \<open>
  Further scripts: a first read followed by two more answers, an empty answer to
  GetChannelCount, a one-byte answer to ChannelGetValue, a one-byte conflict mask from a
  one-channel port, a value with all sixteen bits set, an unplugged adapter, the value 42,
  a first read whose ChannelGetValue answer is one byte short, a transport that itself
  fails with \<^verbatim>\<open>-EPROTO\<close> (-71), a value with only its top bit set; and a run of the
  host framework that reads, removes the device and reads again.
\<close>

definition script_three_reads :: "(int \<times> u8 list) list" where
  "script_three_reads = script_first_read @ [(0, [1, 0]), (0, [0xFF, 0xFF])]"

definition script_empty_count :: "(int \<times> u8 list) list" where
  "script_empty_count = [(0, [])]"

definition script_one_byte :: "(int \<times> u8 list) list" where
  "script_one_byte = [(0, [0x01])]"

definition script_short_conflict :: "(int \<times> u8 list) list" where
  "script_short_conflict = [(0, [1]), (0, []), (0, []), (0, [0x00])]"


definition script_unplugged :: "(int \<times> u8 list) list" where
  "script_unplugged = [(- 19, [])]"

definition script_answer_42 :: "(int \<times> u8 list) list" where
  "script_answer_42 = [(0, [0x2A, 0x00])]"

definition script_short_value :: "(int \<times> u8 list) list" where
  "script_short_value = [(0, [2]), (0, []), (0, []), (0, []), (0, [0, 0]), (0, [0x01])]"

definition script_transport_eproto :: "(int \<times> u8 list) list" where
  "script_transport_eproto = [(- 71, [])]"


definition events_read_remove_read :: "event list" where
  "events_read_remove_read =
     [ReadRaw (DLN2_ADC_CHAN 5) IIO_CHAN_INFO_RAW, Remove,
      ReadRaw (DLN2_ADC_CHAN 0) IIO_CHAN_INFO_RAW]"

section \<open>Transfers issued by the driver\<close>

lemmas cmd_defs = DLN2_CMD_def DLN2_ADC_ID_def DLN2_ADC_GET_CHANNEL_COUNT_def DLN2_ADC_ENABLE_def
  DLN2_ADC_DISABLE_def DLN2_ADC_CHANNEL_ENABLE_def DLN2_ADC_CHANNEL_DISABLE_def
  DLN2_ADC_SET_RESOLUTION_def DLN2_ADC_CHANNEL_GET_VAL_def

lemma min_response_simps:
  "min_response DLN2_ADC_GET_CHANNEL_COUNT = 1"
  "min_response DLN2_ADC_ENABLE = 2"
  "min_response DLN2_ADC_DISABLE = 2"
  "min_response DLN2_ADC_CHANNEL_GET_VAL = 2"
  "min_response DLN2_ADC_SET_RESOLUTION = 0"
  "min_response DLN2_ADC_CHANNEL_ENABLE = 0"
  "min_response DLN2_ADC_CHANNEL_DISABLE = 0"
  by (simp_all add: min_response_def cmd_defs)

lemma transfer_log:
  assumes "dln2_transfer tr cmd ibuf ocap b = ((ret, obuf), b')"
  shows "log b' = log b @ [\<lparr>x_cmd = cmd, x_ibuf = ibuf, x_ocap = ocap, x_ret = ret, x_obuf = obuf\<rparr>]"
  using assms by (auto simp: dln2_transfer_def split: prod.splits)

lemma rx_step:
  assumes "dln2_transfer tr cmd ibuf (Some k) b = ((ret, obuf), b')"
  shows "\<exists>x. log b' = log b @ [x] \<and> x_req x = (cmd, ibuf) \<and> x_ocap x = Some k \<and>
             x_ret x = ret \<and> x_obuf x = obuf \<and>
             xfer_error x =
               (if ret < 0 then Some ret else if length obuf < k then Some (- EPROTO) else None)"
  by (rule exI [of _ "\<lparr>x_cmd = cmd, x_ibuf = ibuf, x_ocap = Some k, x_ret = ret, x_obuf = obuf\<rparr>"])
     (simp add: transfer_log [OF assms] x_req_def xfer_error_def)

lemma tx_step:
  assumes "dln2_transfer_tx tr cmd ibuf b = (ret, b')"
  shows "\<exists>x. log b' = log b @ [x] \<and> x_req x = (cmd, ibuf) \<and> x_ocap x = None \<and>
             xfer_error x = (if ret < 0 then Some ret else None)"
proof -
  obtain obuf where t: "dln2_transfer tr cmd ibuf None b = ((ret, obuf), b')"
    using assms by (auto simp: dln2_transfer_tx_def split: prod.splits)
  show ?thesis
    by (rule exI [of _ "\<lparr>x_cmd = cmd, x_ibuf = ibuf, x_ocap = None, x_ret = ret, x_obuf = obuf\<rparr>"])
       (simp add: transfer_log [OF t] x_req_def xfer_error_def)
qed

lemma get_chan_count_log:
  assumes "dln2_adc_get_chan_count tr d b = (r, b')"
  shows "\<exists>x. log b' = log b @ [x] \<and> x_req x = GetChannelCount (port8 d) \<and> declared x \<and>
             (r < 0 \<longrightarrow> xfer_error x = Some r) \<and>
             (0 \<le> r \<longrightarrow> xfer_error x = None \<and> answered_count x = r)"
proof -
  obtain ret obuf where
    t: "dln2_transfer tr DLN2_ADC_GET_CHANNEL_COUNT [port8 d] (Some 1) b = ((ret, obuf), b')"
    and r: "r = (if ret < 0 then ret else if length obuf < 1 then - EPROTO else uint (obuf ! 0))"
    using assms
    by (auto simp: dln2_adc_get_chan_count_def Let_def port8_def split: prod.splits if_splits)
  from rx_step [OF t] show ?thesis
    by (auto simp: r GetChannelCount_def EPROTO_def x_req_def declared_def min_response_simps
        answered_count_def split: list.splits)
qed

lemma set_port_resolution_log:
  assumes "dln2_adc_set_port_resolution tr d b = (r, b')"
  shows "\<exists>x. log b' = log b @ [x] \<and> x_req x = SetResolution (port8 d) 10 \<and> declared x \<and>
             (r < 0 \<longrightarrow> xfer_error x = Some r) \<and> (0 \<le> r \<longrightarrow> xfer_error x = None \<and> r = 0)"
proof -
  obtain ret where
    t: "dln2_transfer_tx tr DLN2_ADC_SET_RESOLUTION [port8 d, 10] b = (ret, b')"
    and r: "r = (if ret < 0 then ret else 0)"
    using assms
    by (auto simp: dln2_adc_set_port_resolution_def Let_def port_chan_bytes_def port8_def
        DLN2_ADC_DATA_BITS_def split: prod.splits if_splits)
  from tx_step [OF t] show ?thesis
    by (auto simp: r SetResolution_def x_req_def declared_def min_response_simps)
qed

lemma set_chan_enabled_log:
  assumes "dln2_adc_set_chan_enabled tr d i en b = (r, b')"
  shows "\<exists>x. log b' = log b @ [x] \<and>
             x_req x = (if en then ChannelEnable else ChannelDisable) (port8 d) (word_of_int i) \<and>
             declared x \<and>
             (r < 0 \<longrightarrow> xfer_error x = Some r) \<and> (0 \<le> r \<longrightarrow> xfer_error x = None \<and> r = 0)"
proof -
  obtain ret where
    t: "dln2_transfer_tx tr (if en then DLN2_ADC_CHANNEL_ENABLE else DLN2_ADC_CHANNEL_DISABLE)
          [port8 d, word_of_int i] b = (ret, b')"
    and r: "r = (if ret < 0 then ret else 0)"
    using assms
    by (auto simp: dln2_adc_set_chan_enabled_def Let_def port_chan_bytes_def port8_def
        split: prod.splits if_splits)
  from tx_step [OF t] show ?thesis
    by (auto simp: r ChannelEnable_def ChannelDisable_def x_req_def declared_def min_response_simps)
qed


lemma chan_enable_loop_log:
  "chan_enable_loop tr d i n b = (r, b') \<Longrightarrow>
   \<exists>new. log b' = log b @ new \<and>
     map x_req new =
       map (\<lambda>k. ChannelEnable (port8 d) (word_of_int k)) [i .. i + int (length new) - 1] \<and>
     list_all declared new \<and> steps_ok (butlast new) \<and>
     (case r of
        None \<Rightarrow> steps_ok new \<and> int (length new) = max 0 (n - i)
      | Some e \<Rightarrow> e < 0 \<and> new \<noteq> [] \<and> xfer_error (last new) = Some e \<and>
          i + int (length new) \<le> n)"
proof (induction tr d i n b arbitrary: r b' rule: chan_enable_loop.induct)
  case (1 tr d i n b)
  show ?case
  proof (cases "i < n")
    case False
    with "1.prems" have "r = None" "b' = b"
      by (simp_all add: chan_enable_loop.simps)
    with False show ?thesis by (simp add: steps_ok_def)
  next
    case True
    obtain ret b1 where s: "dln2_adc_set_chan_enabled tr d i True b = (ret, b1)"
      by (cases "dln2_adc_set_chan_enabled tr d i True b")
    from set_chan_enabled_log [OF s] obtain x where
      x: "log b1 = log b @ [x]" "x_req x = ChannelEnable (port8 d) (word_of_int i)"
         "declared x"
         "ret < 0 \<longrightarrow> xfer_error x = Some ret" "0 \<le> ret \<longrightarrow> xfer_error x = None"
      by auto
    show ?thesis
    proof (cases "ret < 0")
      case neg: True
      with True s "1.prems" have "r = Some ret" "b' = b1"
        by (simp_all add: chan_enable_loop.simps)
      with x neg True show ?thesis
        by (intro exI [of _ "[x]"]) (simp add: steps_ok_def)
    next
      case nonneg: False
      with True s "1.prems" have rec: "chan_enable_loop tr d (i + 1) n b1 = (r, b')"
        by (simp add: chan_enable_loop.simps)
      from "1.IH" [OF True s [symmetric] nonneg rec] obtain new where
        n: "log b' = log b1 @ new"
           "map x_req new = map (\<lambda>k. ChannelEnable (port8 d) (word_of_int k))
              [i + 1 .. i + 1 + int (length new) - 1]"
           "list_all declared new"
           "steps_ok (butlast new)"
           "case r of
              None \<Rightarrow> steps_ok new \<and> int (length new) = max 0 (n - (i + 1))
            | Some e \<Rightarrow> e < 0 \<and> new \<noteq> [] \<and> xfer_error (last new) = Some e \<and>
                i + 1 + int (length new) \<le> n"
        by blast
      have okx: "xfer_error x = None" using x nonneg by simp
      have up: "[i .. i + int (length (x # new)) - 1] =
                i # [i + 1 .. i + 1 + int (length new) - 1]"
        by (subst upto_rec1) (simp_all add: algebra_simps)
      show ?thesis
      proof (intro exI [of _ "x # new"] conjI)
        show "log b' = log b @ x # new" using n x by simp
        show "map x_req (x # new) =
              map (\<lambda>k. ChannelEnable (port8 d) (word_of_int k))
                [i .. i + int (length (x # new)) - 1]"
          unfolding up using n x by simp
        show "list_all declared (x # new)" using n x by simp
        show "steps_ok (butlast (x # new))"
          using n okx by (simp add: steps_ok_def)
        show "case r of
                None \<Rightarrow> steps_ok (x # new) \<and> int (length (x # new)) = max 0 (n - i)
              | Some e \<Rightarrow> e < 0 \<and> x # new \<noteq> [] \<and> xfer_error (last (x # new)) = Some e \<and>
                  i + int (length (x # new)) \<le> n"
          using n(5) okx True by (auto simp: steps_ok_def split: option.splits)
      qed
    qed
  qed
qed

lemma upto_prefix: "k \<le> n \<Longrightarrow> prefix [0 .. k - 1] [0 .. n - 1 :: int]"
proof (cases "0 \<le> k")
  case True
  assume "k \<le> n"
  with True have "[0 .. n - 1] = [0 .. k - 1] @ [k .. n - 1]"
    using upto_split1 [of 0 k "n - 1"] by (cases "k = n") auto
  then show ?thesis by (simp add: prefix_def)
next
  case False
  then show ?thesis by simp
qed

lemma set_port_enabled_log:
  assumes "dln2_adc_set_port_enabled tr d en b = (r, b')"
  shows "\<exists>new. log b' = log b @ new \<and> new \<noteq> [] \<and> list_all declared new \<and>
           prefix (map x_req new) (enable_sequence (port8 d) en (answered_count (hd new))) \<and>
           steps_ok (butlast new) \<and>
           (if r < 0 then xfer_error (last new) = Some r
            else r = 0 \<and> steps_ok new \<and>
                 map x_req new = enable_sequence (port8 d) en (answered_count (hd new)))"
proof -
  obtain r1 b1 where g: "dln2_adc_get_chan_count tr d b = (r1, b1)"
    by (cases "dln2_adc_get_chan_count tr d b")
  from get_chan_count_log [OF g] obtain x1 where
    x1: "log b1 = log b @ [x1]" "x_req x1 = GetChannelCount (port8 d)" "declared x1"
        "r1 < 0 \<longrightarrow> xfer_error x1 = Some r1"
        "0 \<le> r1 \<longrightarrow> xfer_error x1 = None \<and> answered_count x1 = r1"
    by blast
  show ?thesis
  proof (cases "r1 < 0")
    case True
    with assms g have "r = r1" "b' = b1"
      by (simp_all add: dln2_adc_set_port_enabled_def)
    with True x1 show ?thesis
      by (intro exI [of _ "[x1]"]) (simp add: steps_ok_def enable_sequence_def)
  next
    case c1: False
    then have n: "answered_count x1 = r1" and ok1: "xfer_error x1 = None" and r1: "0 \<le> r1"
      using x1 by auto
    obtain r2 b2 where s: "dln2_adc_set_port_resolution tr d b1 = (r2, b2)"
      by (cases "dln2_adc_set_port_resolution tr d b1")
    from set_port_resolution_log [OF s] obtain x2 where
      x2: "log b2 = log b1 @ [x2]" "x_req x2 = SetResolution (port8 d) 10" "declared x2"
          "r2 < 0 \<longrightarrow> xfer_error x2 = Some r2" "0 \<le> r2 \<longrightarrow> xfer_error x2 = None"
      by blast
    show ?thesis
    proof (cases "r2 < 0")
      case True
      with assms g s c1 have "r = r2" "b' = b2"
        by (simp_all add: dln2_adc_set_port_enabled_def)
      with True x1 x2 ok1 show ?thesis
        by (intro exI [of _ "[x1, x2]"]) (simp add: steps_ok_def enable_sequence_def)
    next
      case c2: False
      then have ok2: "xfer_error x2 = None" using x2 by simp
      obtain r3 b3 where l: "chan_enable_loop tr d 0 r1 b2 = (r3, b3)"
        by (cases "chan_enable_loop tr d 0 r1 b2")
      from chan_enable_loop_log [OF l] obtain ln where
        ln: "log b3 = log b2 @ ln"
            "map x_req ln =
               map (\<lambda>k. ChannelEnable (port8 d) (word_of_int k)) [0 .. int (length ln) - 1]"
            "list_all declared ln"
            "steps_ok (butlast ln)"
            "case r3 of
               None \<Rightarrow> steps_ok ln \<and> int (length ln) = max 0 (r1 - 0)
             | Some e \<Rightarrow> e < 0 \<and> ln \<noteq> [] \<and> xfer_error (last ln) = Some e \<and>
                 0 + int (length ln) \<le> r1"
        by auto
      show ?thesis
      proof (cases r3)
        case (Some e)
        with assms g s c1 c2 l have "r = e" "b' = b3"
          by (simp_all add: dln2_adc_set_port_enabled_def)
        moreover from Some ln(5) have
          e: "e < 0" "ln \<noteq> []" "xfer_error (last ln) = Some e" "int (length ln) \<le> r1"
          by simp_all
        moreover have "prefix (map x_req (x1 # x2 # ln)) (enable_sequence (port8 d) en r1)"
          using upto_prefix [OF e(4)] x1 x2 ln(2)
          by (auto simp: enable_sequence_def prefix_def)
        ultimately show ?thesis
          using x1 x2 ln ok1 ok2 n
          by (intro exI [of _ "x1 # x2 # ln"]) (simp add: steps_ok_def)
      next
        case None
        with ln(5) r1 have len: "int (length ln) = r1" and okl: "steps_ok ln"
          by simp_all
        obtain r4 conflict b4 where
          t: "dln2_transfer tr (if en then DLN2_ADC_ENABLE else DLN2_ADC_DISABLE)
                [port8 d] (Some 2) b3 = ((r4, conflict), b4)"
          by (cases "dln2_transfer tr (if en then DLN2_ADC_ENABLE else DLN2_ADC_DISABLE)
                [port8 d] (Some 2) b3") auto
        from rx_step [OF t] obtain x4 where
          x4: "log b4 = log b3 @ [x4]"
              "x_req x4 = (if en then DLN2_ADC_ENABLE else DLN2_ADC_DISABLE, [port8 d])"
              "x_ocap x4 = Some 2"
              "xfer_error x4 =
                 (if r4 < 0 then Some r4 else if length conflict < 2 then Some (- EPROTO) else None)"
          by blast
        have d4: "declared x4"
          using x4(2,3) by (auto simp: declared_def x_req_def min_response_simps split: if_splits)
        from assms g s c1 c2 l None t have
          r: "r = (if r4 < 0 then r4 else if length conflict < 2 then - EPROTO else 0)"
          and b': "b' = b4"
          by (auto simp: dln2_adc_set_port_enabled_def Let_def port8_def split: if_splits)
        have full: "map x_req (x1 # x2 # ln @ [x4]) = enable_sequence (port8 d) en r1"
          using x1 x2 x4 ln(2) len
          by (simp add: enable_sequence_def PortEnable_def PortDisable_def)
        show ?thesis
          using x1 x2 x4(1,4) d4 ln(1,3) ok1 ok2 okl n r b' full
          by (intro exI [of _ "x1 # x2 # ln @ [x4]"])
             (simp add: steps_ok_def butlast_append EPROTO_def)
      qed
    qed
  qed
qed


lemma get_val_log:
  assumes "dln2_adc_get_val tr d c b = (r, d', b')"
  shows "d' = d \<and>
         (\<exists>x. log b' = log b @ [x] \<and> x_req x = ChannelGetValue (port8 d) (ucast c) \<and>
              declared x \<and>
              (r < 0 \<longrightarrow> xfer_error x = Some r) \<and>
              (0 \<le> r \<longrightarrow> xfer_error x = None \<and> 2 \<le> length (x_obuf x) \<and>
                 r = uint (le16_to_cpu (x_obuf x))))"
proof -
  obtain ret val where
    t: "dln2_transfer tr DLN2_ADC_CHANNEL_GET_VAL [port8 d, ucast c] (Some 2) b = ((ret, val), b')"
    and r: "r = (if ret < 0 then ret else if length val < 2 then - EPROTO
                 else uint (le16_to_cpu val))"
    and d: "d' = d"
    using assms
    by (auto simp: dln2_adc_get_val_def Let_def port8_def port_chan_bytes_def
        split: prod.splits if_splits)
  from rx_step [OF t] show ?thesis
    by (auto simp: r d ChannelGetValue_def EPROTO_def x_req_def declared_def min_response_simps)
qed

lemma read_log:
  assumes "dln2_adc_read tr d c b = (r, d', b')"
  shows "\<exists>new. log b' = log b @ new \<and> new \<noteq> [] \<and> list_all declared new \<and>
           steps_ok (butlast new) \<and>
           (if r < 0 then xfer_error (last new) = Some r
            else steps_ok new \<and> 2 \<le> length (x_obuf (last new)) \<and>
                 r = uint (le16_to_cpu (x_obuf (last new))) \<and>
                 x_req (last new) = ChannelGetValue (port8 d) (ucast c) \<and>
                 chans_enabled d' \<noteq> 0) \<and>
           (if chans_enabled d \<noteq> 0 then
              d' = d \<and> map x_req new = [ChannelGetValue (port8 d) (ucast c)]
            else if chans_enabled d' = 0 then
              d' = d \<and> r < 0 \<and>
              prefix (map x_req new)
                (enable_sequence (port8 d) True (answered_count (hd new)))
            else
              d' = d\<lparr>chans_enabled := 1\<rparr> \<and> steps_ok (butlast new) \<and>
              map x_req new =
                enable_sequence (port8 d) True (answered_count (hd new)) @
                [ChannelGetValue (port8 d) (ucast c)])"
proof (cases "chans_enabled d = 0")
  case False
  with assms have g: "dln2_adc_get_val tr d c b = (r, d', b')"
    by (simp add: dln2_adc_read_def)
  from get_val_log [OF g] obtain x where
    x: "d' = d" "log b' = log b @ [x]" "x_req x = ChannelGetValue (port8 d) (ucast c)"
       "declared x" "r < 0 \<longrightarrow> xfer_error x = Some r"
       "0 \<le> r \<longrightarrow> xfer_error x = None \<and> 2 \<le> length (x_obuf x) \<and> r = uint (le16_to_cpu (x_obuf x))"
    by blast
  with False show ?thesis
    by (intro exI [of _ "[x]"]) (simp add: steps_ok_def)
next
  case True
  obtain r1 b1 where e: "dln2_adc_set_port_enabled tr d True b = (r1, b1)"
    by (cases "dln2_adc_set_port_enabled tr d True b")
  from set_port_enabled_log [OF e] obtain en where
    en: "log b1 = log b @ en" "en \<noteq> []" "list_all declared en"
        "prefix (map x_req en) (enable_sequence (port8 d) True (answered_count (hd en)))"
        "steps_ok (butlast en)"
        "if r1 < 0 then xfer_error (last en) = Some r1
         else r1 = 0 \<and> steps_ok en \<and>
              map x_req en = enable_sequence (port8 d) True (answered_count (hd en))"
    by blast
  show ?thesis
  proof (cases "r1 < 0")
    case neg: True
    with assms True e have "r = r1" "d' = d" "b' = b1"
      by (simp_all add: dln2_adc_read_def)
    with neg True en show ?thesis
      by (intro exI [of _ en]) simp
  next
    case nonneg: False
    with assms True e have
      g: "dln2_adc_get_val tr (d\<lparr>chans_enabled := 1\<rparr>) c b1 = (r, d', b')"
      by (simp add: dln2_adc_read_def)
    from get_val_log [OF g] obtain x where
      x: "d' = d\<lparr>chans_enabled := 1\<rparr>" "log b' = log b1 @ [x]"
         "x_req x = ChannelGetValue (port8 d) (ucast c)"
         "declared x" "r < 0 \<longrightarrow> xfer_error x = Some r"
         "0 \<le> r \<longrightarrow> xfer_error x = None \<and> 2 \<le> length (x_obuf x) \<and>
            r = uint (le16_to_cpu (x_obuf x))"
      by (auto simp: port8_def)
    from nonneg en have full: "steps_ok en"
      "map x_req en = enable_sequence (port8 d) True (answered_count (hd en))"
      by simp_all
    show ?thesis
      using True x en(1,2,3) full
      by (intro exI [of _ "en @ [x]"]) (simp add: steps_ok_def butlast_append)
  qed
qed

subsection \<open>Commands and prefixes of the enable sequence\<close>

lemma cmd_distinct:
  "DLN2_ADC_GET_CHANNEL_COUNT \<noteq> DLN2_ADC_ENABLE"
  "DLN2_ADC_GET_CHANNEL_COUNT \<noteq> DLN2_ADC_DISABLE"
  "DLN2_ADC_GET_CHANNEL_COUNT \<noteq> DLN2_ADC_CHANNEL_ENABLE"
  "DLN2_ADC_GET_CHANNEL_COUNT \<noteq> DLN2_ADC_CHANNEL_DISABLE"
  "DLN2_ADC_GET_CHANNEL_COUNT \<noteq> DLN2_ADC_SET_RESOLUTION"
  "DLN2_ADC_GET_CHANNEL_COUNT \<noteq> DLN2_ADC_CHANNEL_GET_VAL"
  "DLN2_ADC_ENABLE \<noteq> DLN2_ADC_DISABLE"
  "DLN2_ADC_ENABLE \<noteq> DLN2_ADC_CHANNEL_ENABLE"
  "DLN2_ADC_ENABLE \<noteq> DLN2_ADC_CHANNEL_DISABLE"
  "DLN2_ADC_ENABLE \<noteq> DLN2_ADC_SET_RESOLUTION"
  "DLN2_ADC_ENABLE \<noteq> DLN2_ADC_CHANNEL_GET_VAL"
  "DLN2_ADC_DISABLE \<noteq> DLN2_ADC_CHANNEL_ENABLE"
  "DLN2_ADC_DISABLE \<noteq> DLN2_ADC_CHANNEL_DISABLE"
  "DLN2_ADC_DISABLE \<noteq> DLN2_ADC_SET_RESOLUTION"
  "DLN2_ADC_DISABLE \<noteq> DLN2_ADC_CHANNEL_GET_VAL"
  "DLN2_ADC_CHANNEL_ENABLE \<noteq> DLN2_ADC_CHANNEL_DISABLE"
  "DLN2_ADC_CHANNEL_ENABLE \<noteq> DLN2_ADC_SET_RESOLUTION"
  "DLN2_ADC_CHANNEL_ENABLE \<noteq> DLN2_ADC_CHANNEL_GET_VAL"
  "DLN2_ADC_CHANNEL_DISABLE \<noteq> DLN2_ADC_SET_RESOLUTION"
  "DLN2_ADC_CHANNEL_DISABLE \<noteq> DLN2_ADC_CHANNEL_GET_VAL"
  "DLN2_ADC_SET_RESOLUTION \<noteq> DLN2_ADC_CHANNEL_GET_VAL"
  by (simp_all add: cmd_defs)


lemma enable_sequence_cmds:
  "fst ` set (enable_sequence p True n) \<subseteq>
     {DLN2_ADC_GET_CHANNEL_COUNT, DLN2_ADC_SET_RESOLUTION, DLN2_ADC_CHANNEL_ENABLE, DLN2_ADC_ENABLE}"
  by (auto simp: enable_sequence_def GetChannelCount_def SetResolution_def ChannelEnable_def
      PortEnable_def)

lemma failing_step_last:
  assumes "steps_ok (butlast new)" and "x \<in> set new" and "xfer_error x \<noteq> None"
  shows "x = last new"
proof -
  from assms(2) have "new \<noteq> []" by auto
  then have "set new = set (butlast new) \<union> {last new}"
    by (metis append_butlast_last_id set_append list.simps(15) empty_set)
  moreover from assms(1,3) have "x \<notin> set (butlast new)"
    by (auto simp: steps_ok_def list_all_iff)
  ultimately show ?thesis using assms(2) by auto
qed

lemma ucast_word_of_int_u8: "(ucast (word_of_int c :: 32 word) :: 8 word) = word_of_int c"
  by (rule bit_word_eqI) (auto simp add: bit_simps)


section \<open>Properties of the driver\<close>





lemma reads_enabled:
  "chans_enabled d \<noteq> 0 \<Longrightarrow> dln2_adc_reads tr d cs b = (d', b') \<Longrightarrow>
   d' = d \<and>
   (\<exists>new. log b' = log b @ new \<and>
      map x_req new = map (\<lambda>c. ChannelGetValue (port8 d) (ucast c)) cs)"
proof (induction cs arbitrary: b)
  case Nil
  then show ?case by simp
next
  case (Cons c cs)
  obtain r d1 b1 where rd: "dln2_adc_read tr d c b = (r, d1, b1)"
    by (cases "dln2_adc_read tr d c b")
  from read_log [OF rd] Cons.prems(1) obtain new1 where
    n1: "log b1 = log b @ new1" "d1 = d" "map x_req new1 = [ChannelGetValue (port8 d) (ucast c)]"
    by auto
  from Cons.prems(2) rd n1(2) have rest: "dln2_adc_reads tr d cs b1 = (d', b')"
    by simp
  from Cons.IH [OF Cons.prems(1) rest] obtain new2 where
    n2: "d' = d" "log b' = log b1 @ new2"
        "map x_req new2 = map (\<lambda>c. ChannelGetValue (port8 d) (ucast c)) cs"
    by blast
  show ?case
    using n1 n2 by (intro conjI exI [of _ "new1 @ new2"]) simp_all
qed

text \<open>
  Claim C5. After a successful read the context is enabled, and any further reads, on
  whatever channels, leave the context as it is and issue one ChannelGetValue each and
  nothing else: no GetChannelCount, SetResolution, ChannelEnable or PortEnable.
\<close>

theorem enabled_reads_only_get_value:
  assumes "dln2_adc_read tr d c b = (r, d1, b1)" and "0 \<le> r"
    and "dln2_adc_reads tr d1 cs b1 = (d2, b2)"
  shows "chans_enabled d1 \<noteq> 0 \<and> d2 = d1 \<and>
         (\<exists>new. log b2 = log b1 @ new \<and>
            map x_req new = map (\<lambda>c. ChannelGetValue (port8 d) (ucast c)) cs \<and>
            (\<forall>x\<in>set new.
               x_cmd x = DLN2_ADC_CHANNEL_GET_VAL \<and>
               x_cmd x \<noteq> DLN2_ADC_GET_CHANNEL_COUNT \<and> x_cmd x \<noteq> DLN2_ADC_SET_RESOLUTION \<and>
               x_cmd x \<noteq> DLN2_ADC_CHANNEL_ENABLE \<and> x_cmd x \<noteq> DLN2_ADC_ENABLE))"
proof -
  from read_log [OF assms(1)] assms(2) have en: "chans_enabled d1 \<noteq> 0"
    and d1: "d1 = d \<or> d1 = d\<lparr>chans_enabled := 1\<rparr>"
    by (auto split: if_splits)
  from d1 have p: "port8 d1 = port8 d" by (auto simp: port8_def)
  from reads_enabled [OF en assms(3)] p obtain new where
    n: "d2 = d1" "log b2 = log b1 @ new"
       "map x_req new = map (\<lambda>c. ChannelGetValue (port8 d) (ucast c)) cs"
    by auto
  have "\<forall>x\<in>set new. x_cmd x = DLN2_ADC_CHANNEL_GET_VAL"
  proof
    fix x assume "x \<in> set new"
    then have "x_req x \<in> set (map x_req new)" by simp
    then show "x_cmd x = DLN2_ADC_CHANNEL_GET_VAL"
      unfolding n(3) by (auto simp: x_req_def ChannelGetValue_def)
  qed
  with en n show ?thesis
    using cmd_distinct by (intro conjI exI [of _ new]) auto
qed

theorem enabled_reads_only_get_value_witness:
  "(case dln2_adc_read scripted ctx_uninit 5 (fresh_bus script_three_reads) of
      (r, d1, b1) \<Rightarrow>
        r = 1023 \<and> d1 = ctx_enabled \<and>
        (case dln2_adc_reads scripted d1 [0, 7] b1 of
           (d2, b2) \<Rightarrow>
             d2 = ctx_enabled \<and>
             map x_req (drop (length (log b1)) (log b2)) =
               [ChannelGetValue 2 0, ChannelGetValue 2 7]))"
proof -
  let ?run = "dln2_adc_read scripted ctx_uninit 5 (fresh_bus script_three_reads)"
  let ?d1 = "fst (snd ?run)" and ?b1 = "snd (snd ?run)"
  let ?more = "dln2_adc_reads scripted ?d1 [0, 7] ?b1"
  have h1: "?run = (fst ?run, ?d1, ?b1)" by simp
  have h2: "0 \<le> fst ?run" by code_simp
  have h3: "?more = (fst ?more, snd ?more)" by simp
  have e: "fst ?run = 1023" "?d1 = ctx_enabled" "port8 ctx_uninit = 2"
    by code_simp+
  from enabled_reads_only_get_value [OF h1 h2 h3] e show ?thesis
    by (auto simp: case_prod_beta)
qed


lemma short_is_framing:
  assumes "declared x" and "0 \<le> x_ret x" and "length (x_obuf x) < min_response (x_cmd x)"
  shows "xfer_error x = Some (- EPROTO)"
  using assms by (auto simp: declared_def xfer_error_def split: if_splits)

text \<open>
  Claim C6, as stated, fails in two places. A first read whose enable sequence
  succeeds and whose ChannelGetValue answer is one byte short returns \<^verbatim>\<open>-EPROTO\<close>
  with the context changed: \<^verbatim>\<open>chans_enabled\<close> has gone from 0 to 1. And the value
  \<^verbatim>\<open>-EPROTO\<close> does not tell a short response from a transport failure: a transport
  that fails GetChannelCount with -71 makes the driver return the same -71.
\<close>

theorem short_response_changes_state:
  "chans_enabled ctx_uninit = 0 \<and>
   fst (dln2_adc_read scripted ctx_uninit 5 (fresh_bus script_short_value)) = - EPROTO \<and>
   x_cmd (last (log (snd (snd (dln2_adc_read scripted ctx_uninit 5
      (fresh_bus script_short_value)))))) = DLN2_ADC_CHANNEL_GET_VAL \<and>
   x_ret (last (log (snd (snd (dln2_adc_read scripted ctx_uninit 5
      (fresh_bus script_short_value)))))) = 0 \<and>
   x_obuf (last (log (snd (snd (dln2_adc_read scripted ctx_uninit 5
      (fresh_bus script_short_value)))))) = [0x01] \<and>
   chans_enabled (fst (snd (dln2_adc_read scripted ctx_uninit 5
      (fresh_bus script_short_value)))) = 1 \<and>
   fst (dln2_adc_get_chan_count scripted ctx_uninit (fresh_bus script_transport_eproto)) =
     - EPROTO \<and>
   x_ret (last (log (snd (dln2_adc_get_chan_count scripted ctx_uninit
      (fresh_bus script_transport_eproto))))) = - EPROTO \<and>
   fst (dln2_adc_get_chan_count scripted ctx_uninit (fresh_bus script_empty_count)) =
     - EPROTO \<and>
   x_ret (last (log (snd (dln2_adc_get_chan_count scripted ctx_uninit
      (fresh_bus script_empty_count))))) = 0"
  by code_simp

text \<open>
  Claim C6, amended. When a transfer that expects a response (GetChannelCount,
  PortEnable or PortDisable, ChannelGetValue) succeeds at the transport but returns fewer
  bytes than the codec table declares, the operation that issued it returns
  \<^verbatim>\<open>-EPROTO\<close> and that transfer is the last one issued; the empty answer to
  GetChannelCount gives \<^verbatim>\<open>-EPROTO\<close>, not a count of zero. The operation itself does
  not change the context. A whole read leaves the context unchanged too, with one
  exception: when the short response is the one to ChannelGetValue of a read that
  started uninitialised, the flag \<^verbatim>\<open>chans_enabled\<close> is 1 afterwards, set by the enable
  sequence that had just succeeded. Nothing is said about telling \<^verbatim>\<open>-EPROTO\<close> from
  a transport's own error value.
\<close>

theorem short_response_gives_eproto:
  assumes "log b' = log b @ new" and "x \<in> set new" and "0 \<le> x_ret x"
    and "length (x_obuf x) < min_response (x_cmd x)"
  shows "(dln2_adc_get_chan_count tr d b = (r, b') \<longrightarrow> r = - EPROTO \<and> new = [x]) \<and>
         (dln2_adc_set_port_enabled tr d en b = (r, b') \<longrightarrow> r = - EPROTO \<and> x = last new) \<and>
         (dln2_adc_get_val tr d c b = (r, d', b') \<longrightarrow> r = - EPROTO \<and> new = [x] \<and> d' = d) \<and>
         (dln2_adc_read tr d c b = (r, d', b') \<longrightarrow>
            r = - EPROTO \<and> x = last new \<and>
            d' = (if chans_enabled d = 0 \<and> x_cmd x = DLN2_ADC_CHANNEL_GET_VAL
                  then d\<lparr>chans_enabled := 1\<rparr> else d))"
proof -
  have count: "dln2_adc_get_chan_count tr d b = (r, b') \<longrightarrow> r = - EPROTO \<and> new = [x]"
  proof
    assume g: "dln2_adc_get_chan_count tr d b = (r, b')"
    from get_chan_count_log [OF g] assms(1) obtain y where
      y: "new = [y]" "declared y" "r < 0 \<longrightarrow> xfer_error y = Some r"
         "0 \<le> r \<longrightarrow> xfer_error y = None"
      by auto
    with assms(2) have xy: "y = x" by simp
    from short_is_framing [OF y(2) [unfolded xy] assms(3,4)] y(3,4) xy
    have "r = - EPROTO" by (cases "r < 0") auto
    with xy y(1) show "r = - EPROTO \<and> new = [x]" by simp
  qed
  have enable: "dln2_adc_set_port_enabled tr d en b = (r, b') \<longrightarrow>
                  r = - EPROTO \<and> x = last new"
  proof
    assume e: "dln2_adc_set_port_enabled tr d en b = (r, b')"
    from set_port_enabled_log [OF e] assms(1) have
      n: "list_all declared new" "steps_ok (butlast new)"
         "if r < 0 then xfer_error (last new) = Some r else steps_ok new"
      by (auto split: if_splits)
    from n(1) assms(2) have "declared x" by (simp add: list_all_iff)
    from short_is_framing [OF this assms(3,4)] have err: "xfer_error x = Some (- EPROTO)" .
    then have l: "x = last new"
      using failing_step_last [OF n(2) assms(2)] by simp
    from n(3) err l assms(2) have "r = - EPROTO"
      by (cases "r < 0") (auto simp: steps_ok_def list_all_iff)
    with l show "r = - EPROTO \<and> x = last new" by simp
  qed
  have val: "dln2_adc_get_val tr d c b = (r, d', b') \<longrightarrow>
               r = - EPROTO \<and> new = [x] \<and> d' = d"
  proof
    assume g: "dln2_adc_get_val tr d c b = (r, d', b')"
    from get_val_log [OF g] assms(1) obtain y where
      y: "d' = d" "new = [y]" "declared y" "r < 0 \<longrightarrow> xfer_error y = Some r"
         "0 \<le> r \<longrightarrow> xfer_error y = None"
      by auto
    with assms(2) have xy: "y = x" by simp
    from short_is_framing [OF y(3) [unfolded xy] assms(3,4)] y(4,5) xy
    have "r = - EPROTO" by (cases "r < 0") auto
    with xy y(1,2) show "r = - EPROTO \<and> new = [x] \<and> d' = d" by simp
  qed
  have read: "dln2_adc_read tr d c b = (r, d', b') \<longrightarrow>
            r = - EPROTO \<and> x = last new \<and>
            d' = (if chans_enabled d = 0 \<and> x_cmd x = DLN2_ADC_CHANNEL_GET_VAL
                  then d\<lparr>chans_enabled := 1\<rparr> else d)"
  proof
    let ?seq = "enable_sequence (port8 d) True (answered_count (hd new))"
    let ?gv = "ChannelGetValue (port8 d) (ucast c)"
    assume rd: "dln2_adc_read tr d c b = (r, d', b')"
    from read_log [OF rd] assms(1) have
      n: "new \<noteq> []" "list_all declared new" "steps_ok (butlast new)"
         "if r < 0 then xfer_error (last new) = Some r else steps_ok new"
         "if chans_enabled d \<noteq> 0 then d' = d
          else if chans_enabled d' = 0 then d' = d \<and> prefix (map x_req new) ?seq
          else d' = d\<lparr>chans_enabled := 1\<rparr> \<and> map x_req new = ?seq @ [?gv]"
      by (auto split: if_splits)
    from n(2) assms(2) have "declared x" by (simp add: list_all_iff)
    from short_is_framing [OF this assms(3,4)] have err: "xfer_error x = Some (- EPROTO)" .
    then have l: "x = last new"
      using failing_step_last [OF n(3) assms(2)] by simp
    from n(4) err l assms(2) have r: "r = - EPROTO"
      by (cases "r < 0") (auto simp: steps_ok_def list_all_iff)
    have st: "d' = (if chans_enabled d = 0 \<and> x_cmd x = DLN2_ADC_CHANNEL_GET_VAL
                    then d\<lparr>chans_enabled := 1\<rparr> else d)"
    proof (cases "chans_enabled d = 0")
      case False
      with n(5) show ?thesis by simp
    next
      case un: True
      show ?thesis
      proof (cases "chans_enabled d' = 0")
        case True
        with un n(5) have d: "d' = d" and p: "prefix (map x_req new) ?seq" by simp_all
        from assms(2) have "x_req x \<in> set (map x_req new)" by simp
        with set_mono_prefix [OF p] have "x_req x \<in> set ?seq" by blast
        then have "fst (x_req x) \<in> fst ` set ?seq" by (rule imageI)
        then have "x_cmd x \<in> fst ` set ?seq" by (simp add: x_req_def)
        with enable_sequence_cmds [of "port8 d" "answered_count (hd new)"]
        have "x_cmd x \<noteq> DLN2_ADC_CHANNEL_GET_VAL"
          using cmd_distinct by auto
        with d show ?thesis by simp
      next
        case False
        with un n(5) have d: "d' = d\<lparr>chans_enabled := 1\<rparr>"
          and full: "map x_req new = ?seq @ [?gv]"
          by simp_all
        from full have "last (map x_req new) = ?gv" by simp
        with n(1) l have "x_cmd x = DLN2_ADC_CHANNEL_GET_VAL"
          by (simp add: last_map x_req_def ChannelGetValue_def)
        with un d show ?thesis by simp
      qed
    qed
    from r l st show "r = - EPROTO \<and> x = last new \<and>
            d' = (if chans_enabled d = 0 \<and> x_cmd x = DLN2_ADC_CHANNEL_GET_VAL
                  then d\<lparr>chans_enabled := 1\<rparr> else d)"
      by (intro conjI)
  qed
  from count enable val read show ?thesis by (intro conjI)
qed

theorem short_response_gives_eproto_witness:
  "dln2_adc_get_chan_count scripted ctx_uninit (fresh_bus script_empty_count) =
     (- EPROTO, \<lparr>dev = [], log = [\<lparr>x_cmd = DLN2_ADC_GET_CHANNEL_COUNT, x_ibuf = [2],
        x_ocap = Some 1, x_ret = 0, x_obuf = []\<rparr>]\<rparr>) \<and>
   fst (dln2_adc_set_port_enabled scripted ctx_uninit True (fresh_bus script_short_conflict)) =
     - EPROTO \<and>
   fst (dln2_adc_set_port_enabled scripted ctx_uninit False (fresh_bus script_short_conflict)) =
     - EPROTO \<and>
   dln2_adc_get_val scripted ctx_enabled 5 (fresh_bus script_one_byte) =
     (- EPROTO, ctx_enabled, \<lparr>dev = [], log = [\<lparr>x_cmd = DLN2_ADC_CHANNEL_GET_VAL,
        x_ibuf = [2, 5], x_ocap = Some 2, x_ret = 0, x_obuf = [0x01]\<rparr>]\<rparr>) \<and>
   dln2_adc_read scripted ctx_uninit 5 (fresh_bus script_empty_count) =
     (- EPROTO, ctx_uninit, \<lparr>dev = [], log = [\<lparr>x_cmd = DLN2_ADC_GET_CHANNEL_COUNT,
        x_ibuf = [2], x_ocap = Some 1, x_ret = 0, x_obuf = []\<rparr>]\<rparr>) \<and>
   fst (dln2_adc_read scripted ctx_uninit 5 (fresh_bus script_short_value)) = - EPROTO \<and>
   fst (snd (dln2_adc_read scripted ctx_uninit 5 (fresh_bus script_short_value))) =
     ctx_uninit\<lparr>chans_enabled := 1\<rparr>"
proof -
  let ?x = "\<lparr>x_cmd = DLN2_ADC_GET_CHANNEL_COUNT, x_ibuf = [2], x_ocap = Some 1,
              x_ret = 0, x_obuf = []\<rparr>"
  let ?b = "fresh_bus script_empty_count"
  let ?b' = "\<lparr>dev = [] :: (int \<times> u8 list) list, log = [?x]\<rparr>"
  let ?g = "dln2_adc_get_chan_count scripted ctx_uninit ?b"
  let ?r = "dln2_adc_read scripted ctx_uninit 5 ?b"
  have h1: "log ?b' = log ?b @ [?x]" by (simp add: fresh_bus_def)
  have h2: "?x \<in> set [?x]" by simp
  have h3: "0 \<le> x_ret ?x" by simp
  have h4: "length (x_obuf ?x) < min_response (x_cmd ?x)" by (simp add: min_response_simps)
  have g: "snd ?g = ?b'" by code_simp
  then have g': "?g = (fst ?g, ?b')" by (metis prod.collapse)
  from short_response_gives_eproto [OF h1 h2 h3 h4,
      where tr = scripted and d = ctx_uninit and r = "fst ?g",
      THEN conjunct1, THEN mp, OF g']
  have "fst ?g = - EPROTO" by (rule conjunct1)
  with g' have 1: "?g = (- EPROTO, ?b')" by simp
  have r: "snd ?r = (ctx_uninit, ?b')" by code_simp
  then have r': "?r = (fst ?r, ctx_uninit, ?b')" by (metis prod.collapse)
  from short_response_gives_eproto [OF h1 h2 h3 h4,
      where tr = scripted and d = ctx_uninit and c = 5 and d' = ctx_uninit and r = "fst ?r",
      THEN conjunct2, THEN conjunct2, THEN conjunct2, THEN mp, OF r']
  have "fst ?r = - EPROTO" by (rule conjunct1)
  with r' have 5: "?r = (- EPROTO, ctx_uninit, ?b')" by simp
  let ?y = "\<lparr>x_cmd = DLN2_ADC_CHANNEL_GET_VAL, x_ibuf = [2, 5], x_ocap = Some 2,
              x_ret = 0, x_obuf = [0x01]\<rparr>"
  let ?c = "fresh_bus script_one_byte"
  let ?c' = "\<lparr>dev = [] :: (int \<times> u8 list) list, log = [?y]\<rparr>"
  let ?v = "dln2_adc_get_val scripted ctx_enabled 5 ?c"
  have k1: "log ?c' = log ?c @ [?y]" by (simp add: fresh_bus_def)
  have k2: "?y \<in> set [?y]" by simp
  have k3: "0 \<le> x_ret ?y" by simp
  have k4: "length (x_obuf ?y) < min_response (x_cmd ?y)" by (simp add: min_response_simps)
  have v: "snd ?v = (ctx_enabled, ?c')" by code_simp
  then have v': "?v = (fst ?v, ctx_enabled, ?c')" by (metis prod.collapse)
  from short_response_gives_eproto [OF k1 k2 k3 k4,
      where tr = scripted and d = ctx_enabled and c = 5 and d' = ctx_enabled and r = "fst ?v",
      THEN conjunct2, THEN conjunct2, THEN conjunct1, THEN mp, OF v']
  have "fst ?v = - EPROTO" by (rule conjunct1)
  with v' have 4: "?v = (- EPROTO, ctx_enabled, ?c')" by simp
  let ?et = "dln2_adc_set_port_enabled scripted ctx_uninit True (fresh_bus script_short_conflict)"
  have t1: "log (snd ?et) = log (fresh_bus script_short_conflict) @ log (snd ?et)"
    by (simp add: fresh_bus_def)
  have t2: "last (log (snd ?et)) \<in> set (log (snd ?et))" by code_simp
  have t3: "0 \<le> x_ret (last (log (snd ?et)))" by code_simp
  have t4: "length (x_obuf (last (log (snd ?et)))) < min_response (x_cmd (last (log (snd ?et))))"
    by code_simp
  have t5: "?et = (fst ?et, snd ?et)" by simp
  from short_response_gives_eproto [OF t1 t2 t3 t4,
      where tr = scripted and d = ctx_uninit and en = True and r = "fst ?et",
      THEN conjunct2, THEN conjunct1, THEN mp, OF t5]
  have 2: "fst ?et = - EPROTO" by (rule conjunct1)
  let ?ef = "dln2_adc_set_port_enabled scripted ctx_uninit False (fresh_bus script_short_conflict)"
  have m1: "log (snd ?ef) = log (fresh_bus script_short_conflict) @ log (snd ?ef)"
    by (simp add: fresh_bus_def)
  have m2: "last (log (snd ?ef)) \<in> set (log (snd ?ef))" by code_simp
  have m3: "0 \<le> x_ret (last (log (snd ?ef)))" by code_simp
  have m4: "length (x_obuf (last (log (snd ?ef)))) < min_response (x_cmd (last (log (snd ?ef))))"
    by code_simp
  have m5: "?ef = (fst ?ef, snd ?ef)" by simp
  from short_response_gives_eproto [OF m1 m2 m3 m4,
      where tr = scripted and d = ctx_uninit and en = False and r = "fst ?ef",
      THEN conjunct2, THEN conjunct1, THEN mp, OF m5]
  have 3: "fst ?ef = - EPROTO" by (rule conjunct1)
  let ?s = "dln2_adc_read scripted ctx_uninit 5 (fresh_bus script_short_value)"
  let ?z = "last (log (snd (snd ?s)))"
  have s1: "log (snd (snd ?s)) = log (fresh_bus script_short_value) @ log (snd (snd ?s))"
    by (simp add: fresh_bus_def)
  have s2: "?z \<in> set (log (snd (snd ?s)))" by code_simp
  have s3: "0 \<le> x_ret ?z" by code_simp
  have s4: "length (x_obuf ?z) < min_response (x_cmd ?z)" by code_simp
  have s5: "?s = (fst ?s, fst (snd ?s), snd (snd ?s))" by simp
  have s6: "chans_enabled ctx_uninit = 0 \<and> x_cmd ?z = DLN2_ADC_CHANNEL_GET_VAL" by code_simp
  from short_response_gives_eproto [OF s1 s2 s3 s4,
      where tr = scripted and d = ctx_uninit and c = 5 and r = "fst ?s"
        and d' = "fst (snd ?s)",
      THEN conjunct2, THEN conjunct2, THEN conjunct2, THEN mp, OF s5]
  have "fst ?s = - EPROTO \<and> fst (snd ?s) = ctx_uninit\<lparr>chans_enabled := 1\<rparr>"
    using s6 by simp
  with 1 2 3 4 5 show ?thesis by (intro conjI) simp_all
qed






text \<open>
  Claim C10. With a mask other than \<^verbatim>\<open>IIO_CHAN_INFO_RAW\<close>, \<^verbatim>\<open>dln2_adc_read_raw\<close>
  returns \<^verbatim>\<open>-EINVAL\<close> and changes nothing: no transfer is issued, the context and
  both out-parameters keep their values.
\<close>

theorem read_raw_other_mask:
  assumes "msk \<noteq> IIO_CHAN_INFO_RAW"
  shows "dln2_adc_read_raw tr d chan v v2 msk b =
           \<lparr>r_ret = - EINVAL, r_val = v, r_val2 = v2, r_dln2 = d, r_bus = b\<rparr>"
  using assms by (simp add: dln2_adc_read_raw_def)

theorem read_raw_other_mask_witness:
  "(1 :: int) \<noteq> IIO_CHAN_INFO_RAW \<and>
   dln2_adc_read_raw scripted ctx_uninit (DLN2_ADC_CHAN 3) 7 9 1 (fresh_bus script_first_read) =
     \<lparr>r_ret = - 22, r_val = 7, r_val2 = 9, r_dln2 = ctx_uninit,
      r_bus = \<lparr>dev = script_first_read, log = []\<rparr>\<rparr>"
proof -
  have h: "(1 :: int) \<noteq> IIO_CHAN_INFO_RAW" by (simp add: IIO_CHAN_INFO_RAW_def)
  from read_raw_other_mask [OF h] h show ?thesis
    by (simp add: EINVAL_def fresh_bus_def)
qed

text \<open>
  Claim C1 does not hold of the code. On an enabled context whose adapter fails the
  ChannelGetValue transfer with \<^verbatim>\<open>-ENODEV\<close> (-19), \<^verbatim>\<open>dln2_adc_read\<close> returns -19
  but \<^verbatim>\<open>dln2_adc_read_raw\<close> returns \<^verbatim>\<open>-EINVAL\<close> (-22): its \<^verbatim>\<open>break\<close> falls
  through to the return meant for unsupported masks.
\<close>

theorem read_raw_replaces_error:
  "dln2_adc_read scripted ctx_enabled 3 (fresh_bus script_unplugged) =
     (- 19, ctx_enabled,
      \<lparr>dev = [], log = [\<lparr>x_cmd = DLN2_ADC_CHANNEL_GET_VAL, x_ibuf = [2, 3],
         x_ocap = Some 2, x_ret = - 19, x_obuf = []\<rparr>]\<rparr>) \<and>
   r_ret (dln2_adc_read_raw scripted ctx_enabled (DLN2_ADC_CHAN 3) 0 0 IIO_CHAN_INFO_RAW
            (fresh_bus script_unplugged)) = - 22 \<and>
   - EINVAL = (- 22 :: int)"
  by code_simp


lemma read_cmds:
  assumes "dln2_adc_read tr d c b = (r, d', b')"
  shows "\<exists>new. log b' = log b @ new \<and> new \<noteq> [] \<and>
           x_cmd ` set new \<subseteq>
             {DLN2_ADC_GET_CHANNEL_COUNT, DLN2_ADC_SET_RESOLUTION, DLN2_ADC_CHANNEL_ENABLE,
              DLN2_ADC_ENABLE, DLN2_ADC_CHANNEL_GET_VAL} \<and>
           (chans_enabled d \<noteq> 0 \<longrightarrow> d' = d)"
proof -
  let ?gv = "ChannelGetValue (port8 d) (ucast c)"
  from read_log [OF assms] obtain new where
    n: "log b' = log b @ new" "new \<noteq> []"
       "if chans_enabled d \<noteq> 0 then d' = d \<and> map x_req new = [?gv]
        else if chans_enabled d' = 0 then
          prefix (map x_req new) (enable_sequence (port8 d) True (answered_count (hd new)))
        else
          map x_req new = enable_sequence (port8 d) True (answered_count (hd new)) @ [?gv]"
    by (auto split: if_splits)
  let ?seq = "enable_sequence (port8 d) True (answered_count (hd new))"
  have cmds: "x_cmd ` set new = fst ` set (map x_req new)"
    by (auto simp: x_req_def image_iff)
  have "set (map x_req new) \<subseteq> set ?seq \<union> {?gv}"
  proof (cases "chans_enabled d \<noteq> 0")
    case True
    with n(3) show ?thesis by simp
  next
    case un: False
    show ?thesis
    proof (cases "chans_enabled d' = 0")
      case True
      with un n(3) have "prefix (map x_req new) ?seq" by simp
      from set_mono_prefix [OF this] show ?thesis by blast
    next
      case False
      with un n(3) have "map x_req new = ?seq @ [?gv]" by simp
      then show ?thesis by simp
    qed
  qed
  then have "fst ` set (map x_req new) \<subseteq> fst ` set ?seq \<union> {DLN2_ADC_CHANNEL_GET_VAL}"
    by (auto simp: ChannelGetValue_def)
  with enable_sequence_cmds [of "port8 d" "answered_count (hd new)"]
  have "x_cmd ` set new \<subseteq>
      {DLN2_ADC_GET_CHANNEL_COUNT, DLN2_ADC_SET_RESOLUTION, DLN2_ADC_CHANNEL_ENABLE,
       DLN2_ADC_ENABLE, DLN2_ADC_CHANNEL_GET_VAL}"
    unfolding cmds by blast
  with n show ?thesis by (intro exI [of _ new]) simp
qed

lemma controller_step_cmds:
  assumes "controller_step tr ev (d, b) = (d', b')"
  shows "\<exists>new. log b' = log b @ new \<and>
           x_cmd ` set new \<subseteq>
             {DLN2_ADC_GET_CHANNEL_COUNT, DLN2_ADC_SET_RESOLUTION, DLN2_ADC_CHANNEL_ENABLE,
              DLN2_ADC_ENABLE, DLN2_ADC_CHANNEL_GET_VAL} \<and>
           (chans_enabled d \<noteq> 0 \<longrightarrow> chans_enabled d' \<noteq> 0)"
proof (cases ev)
  case Remove
  with assms show ?thesis by (simp add: dln2_adc_remove_def)
next
  case (ReadRaw chan msk)
  show ?thesis
  proof (cases "msk = IIO_CHAN_INFO_RAW")
    case False
    with assms ReadRaw show ?thesis by (simp add: dln2_adc_read_raw_def)
  next
    case True
    obtain r d1 b1 where rd: "dln2_adc_read tr d (word_of_int (channel chan)) b = (r, d1, b1)"
      by (cases "dln2_adc_read tr d (word_of_int (channel chan)) b")
    with assms ReadRaw True have "d' = d1" "b' = b1"
      by (auto simp: dln2_adc_read_raw_def Let_def split: if_splits)
    with read_cmds [OF rd] show ?thesis by auto
  qed
qed

lemma controller_run_cmds:
  "controller_run tr evs (d, b) = (d', b') \<Longrightarrow>
   \<exists>new. log b' = log b @ new \<and>
     x_cmd ` set new \<subseteq>
       {DLN2_ADC_GET_CHANNEL_COUNT, DLN2_ADC_SET_RESOLUTION, DLN2_ADC_CHANNEL_ENABLE,
        DLN2_ADC_ENABLE, DLN2_ADC_CHANNEL_GET_VAL} \<and>
     (chans_enabled d \<noteq> 0 \<longrightarrow> chans_enabled d' \<noteq> 0)"
proof (induction evs arbitrary: d b)
  case Nil
  then show ?case by simp
next
  case (Cons ev evs)
  obtain d1 b1 where st: "controller_step tr ev (d, b) = (d1, b1)"
    by (cases "controller_step tr ev (d, b)")
  from controller_step_cmds [OF st] obtain new1 where
    n1: "log b1 = log b @ new1"
        "x_cmd ` set new1 \<subseteq>
           {DLN2_ADC_GET_CHANNEL_COUNT, DLN2_ADC_SET_RESOLUTION, DLN2_ADC_CHANNEL_ENABLE,
            DLN2_ADC_ENABLE, DLN2_ADC_CHANNEL_GET_VAL}"
        "chans_enabled d \<noteq> 0 \<longrightarrow> chans_enabled d1 \<noteq> 0"
    by blast
  from Cons.prems st have "controller_run tr evs (d1, b1) = (d', b')" by simp
  from Cons.IH [OF this] obtain new2 where
    n2: "log b' = log b1 @ new2"
        "x_cmd ` set new2 \<subseteq>
           {DLN2_ADC_GET_CHANNEL_COUNT, DLN2_ADC_SET_RESOLUTION, DLN2_ADC_CHANNEL_ENABLE,
            DLN2_ADC_ENABLE, DLN2_ADC_CHANNEL_GET_VAL}"
        "chans_enabled d1 \<noteq> 0 \<longrightarrow> chans_enabled d' \<noteq> 0"
    by blast
  show ?case
    using n1 n2 by (intro exI [of _ "new1 @ new2"]) (simp add: image_Un)
qed

text \<open>
  Claim C9. Whatever the host framework asks, in whatever order (reads of any channel
  specification with any mask, removals), the driver issues neither PortDisable nor
  ChannelDisable, and a context whose flag is set keeps it set. Removal itself issues no
  transfer and leaves the context alone.
\<close>

theorem never_disabled:
  assumes "controller_run tr evs (d, b) = (d', b')"
  shows "(\<exists>new. log b' = log b @ new \<and>
            DLN2_ADC_DISABLE \<notin> x_cmd ` set new \<and>
            DLN2_ADC_CHANNEL_DISABLE \<notin> x_cmd ` set new) \<and>
         (chans_enabled d \<noteq> 0 \<longrightarrow> chans_enabled d' \<noteq> 0) \<and>
         dln2_adc_remove d b = (0, d, b)"
proof -
  from controller_run_cmds [OF assms] obtain new where
    n: "log b' = log b @ new"
       "x_cmd ` set new \<subseteq>
          {DLN2_ADC_GET_CHANNEL_COUNT, DLN2_ADC_SET_RESOLUTION, DLN2_ADC_CHANNEL_ENABLE,
           DLN2_ADC_ENABLE, DLN2_ADC_CHANNEL_GET_VAL}"
       "chans_enabled d \<noteq> 0 \<longrightarrow> chans_enabled d' \<noteq> 0"
    by blast
  from n(2) have "DLN2_ADC_DISABLE \<notin> x_cmd ` set new"
    "DLN2_ADC_CHANNEL_DISABLE \<notin> x_cmd ` set new"
    using cmd_distinct by auto
  with n(1,3) show ?thesis
    by (auto simp: dln2_adc_remove_def)
qed

theorem never_disabled_witness:
  "(case controller_run scripted events_read_remove_read
           (ctx_uninit, fresh_bus script_three_reads) of
      (d', b') \<Rightarrow>
        d' = ctx_enabled \<and> length (log b') = 7 \<and>
        DLN2_ADC_DISABLE \<notin> x_cmd ` set (log b') \<and>
        DLN2_ADC_CHANNEL_DISABLE \<notin> x_cmd ` set (log b')) \<and>
   (case controller_run scripted [Remove] (ctx_enabled, fresh_bus script_three_reads) of
      (d', b') \<Rightarrow> chans_enabled d' \<noteq> 0 \<and> log b' = [])"
proof -
  let ?run = "controller_run scripted events_read_remove_read
                (ctx_uninit, fresh_bus script_three_reads)"
  let ?rm = "controller_run scripted [Remove] (ctx_enabled, fresh_bus script_three_reads)"
  have h1: "?run = (fst ?run, snd ?run)" by simp
  have h2: "?rm = (fst ?rm, snd ?rm)" by simp
  have e: "fst ?run = ctx_enabled" "length (log (snd ?run)) = 7" "log (snd ?rm) = []"
    "chans_enabled ctx_enabled \<noteq> 0"
    by code_simp+
  from never_disabled [OF h1] never_disabled [OF h2] e show ?thesis
    by (auto simp: case_prod_beta fresh_bus_def)
qed

text \<open>
  Claim C2, as stated, fails: the driver has no range check. On an enabled context a
  raw read of channel 8 and one of channel -1 both go to the adapter, as
  ChannelGetValue for the channel bytes 8 and 255, and return its value.
\<close>

theorem read_out_of_range_issued:
  "dln2_adc_read_raw scripted ctx_enabled (DLN2_ADC_CHAN 8) 0 0 IIO_CHAN_INFO_RAW
     (fresh_bus script_answer_42) =
   \<lparr>r_ret = IIO_VAL_INT, r_val = 42, r_val2 = 0, r_dln2 = ctx_enabled,
    r_bus = \<lparr>dev = [], log = [\<lparr>x_cmd = DLN2_ADC_CHANNEL_GET_VAL, x_ibuf = [2, 8],
       x_ocap = Some 2, x_ret = 0, x_obuf = [0x2A, 0x00]\<rparr>]\<rparr>\<rparr> \<and>
   dln2_adc_read_raw scripted ctx_enabled (DLN2_ADC_CHAN (- 1)) 0 0 IIO_CHAN_INFO_RAW
     (fresh_bus script_answer_42) =
   \<lparr>r_ret = IIO_VAL_INT, r_val = 42, r_val2 = 0, r_dln2 = ctx_enabled,
    r_bus = \<lparr>dev = [], log = [\<lparr>x_cmd = DLN2_ADC_CHANNEL_GET_VAL, x_ibuf = [2, 255],
       x_ocap = Some 2, x_ret = 0, x_obuf = [0x2A, 0x00]\<rparr>]\<rparr>\<rparr>"
  by code_simp

text \<open>
  Claim C2, amended. The channel specifications registered with the host framework
  carry exactly the indices 0 to 7, and that table is the only thing that keeps other
  indices out: a raw read never rejects an index. It always issues a transfer, and on an
  enabled context it issues one ChannelGetValue for the index cut to eight bits and
  leaves the context as it is.
\<close>

theorem read_channel_not_checked:
  "map channel dln2_adc_iio_channels = [0, 1, 2, 3, 4, 5, 6, 7] \<and>
   log (r_bus (dln2_adc_read_raw tr d chan v v2 IIO_CHAN_INFO_RAW b)) \<noteq> log b \<and>
   (chans_enabled d \<noteq> 0 \<longrightarrow>
      r_dln2 (dln2_adc_read_raw tr d chan v v2 IIO_CHAN_INFO_RAW b) = d \<and>
      (\<exists>x. log (r_bus (dln2_adc_read_raw tr d chan v v2 IIO_CHAN_INFO_RAW b)) = log b @ [x] \<and>
           x_req x = ChannelGetValue (port8 d) (word_of_int (channel chan))))"
proof -
  let ?c = "word_of_int (channel chan) :: u32"
  obtain r d1 b1 where rd: "dln2_adc_read tr d ?c b = (r, d1, b1)"
    by (cases "dln2_adc_read tr d ?c b")
  then have res: "r_bus (dln2_adc_read_raw tr d chan v v2 IIO_CHAN_INFO_RAW b) = b1"
    "r_dln2 (dln2_adc_read_raw tr d chan v v2 IIO_CHAN_INFO_RAW b) = d1"
    by (simp_all add: dln2_adc_read_raw_def)
  from read_log [OF rd] obtain new where
    n: "log b1 = log b @ new" "new \<noteq> []"
       "chans_enabled d \<noteq> 0 \<longrightarrow> d1 = d \<and> map x_req new = [ChannelGetValue (port8 d) (ucast ?c)]"
    by (auto split: if_splits)
  have tab: "map channel dln2_adc_iio_channels = [0, 1, 2, 3, 4, 5, 6, 7]"
    by (simp add: dln2_adc_iio_channels_def DLN2_ADC_CHAN_def)
  have en: "d1 = d \<and> (\<exists>x. log b1 = log b @ [x] \<and>
              x_req x = ChannelGetValue (port8 d) (word_of_int (channel chan)))"
    if "chans_enabled d \<noteq> 0"
  proof -
    from n(3) that have m: "d1 = d" "map x_req new = [ChannelGetValue (port8 d) (ucast ?c)]"
      by simp_all
    then obtain x where "new = [x]" by (cases new) auto
    with m n(1) show ?thesis by (auto simp: ucast_word_of_int_u8)
  qed
  from tab n(1,2) en show ?thesis unfolding res by simp
qed

theorem read_channel_not_checked_witness:
  "chans_enabled ctx_enabled \<noteq> 0 \<and>
   map x_req (log (r_bus (dln2_adc_read_raw scripted ctx_enabled (DLN2_ADC_CHAN 8) 0 0
                 IIO_CHAN_INFO_RAW (fresh_bus script_answer_42)))) = [ChannelGetValue 2 8]"
proof -
  have h: "chans_enabled ctx_enabled \<noteq> 0" "port8 ctx_enabled = 2"
    "word_of_int (channel (DLN2_ADC_CHAN 8)) = (8 :: u8)"
    by code_simp+
  from read_channel_not_checked [of scripted ctx_enabled "DLN2_ADC_CHAN 8" 0 0
      "fresh_bus script_answer_42"] h
  show ?thesis by (auto simp: fresh_bus_def)
qed

end
